theory Spec2Isabelle
  imports Main
begin

section \<open>The record store of database.js\<close>

text \<open>
  The store keeps each table as one JSON document on disk and reads and rewrites the
  whole document on every call. The embedding follows the source function by function:
  \<^item> a JSON value is the datatype \<open>json\<close>; an object is the list of its properties in
    insertion order;
  \<^item> the disk is a map from paths to file contents, passed through every operation that
    writes;
  \<^item> an exception is the left summand of a result; \<open>read\<close> is the only place of the
    source that catches one;
  \<^item> the two clock readings of the source, \<open>Date.now()\<close> and
    \<open>new Date().toISOString()\<close>, are arguments of the operation that takes them.
  The calls to the console of \<open>update\<close> and \<open>delete\<close> change nothing the store
  returns or keeps and are left out.
\<close>

subsection \<open>JSON values\<close>

text \<open>
  Numbers are integers: the clock value that becomes an id is one, and on the safe
  range of a double, below \<open>2 ^ 53\<close> in magnitude, integer arithmetic and printing are
  exact. Fractional numbers and larger magnitudes are outside this development.
  Strings are lists of 8-bit characters, read as code units below 256.
\<close>

datatype json =
    JNull
  | JBool bool
  | JNum int
  | JStr string
  | JArr "json list"
  | JObj "(string \<times> json) list"

type_synonym props = "(string \<times> json) list"

text \<open>
  \<open>get_prop o k\<close> is the read \<open>o[k]\<close> of an own property, \<open>None\<close> for
  \<open>undefined\<close>. An object has one entry for each key; in a list that has several, the
  last one counts, which is how \<open>JSON.parse\<close> reads a repeated key. The list keeps
  the order in which the properties were made; that an engine enumerates keys that look
  like array indices before the others is not modelled, and the properties below read
  the fields by name.
\<close>

fun get_prop :: "props \<Rightarrow> string \<Rightarrow> json option" where
  "get_prop [] k = None"
| "get_prop ((k', v) # ps) k =
     (case get_prop ps k of
        Some w \<Rightarrow> Some w
      | None \<Rightarrow> if k' = k then Some v else None)"

text \<open>
  \<open>set_prop k v o\<close> is the assignment \<open>o[k] = v\<close>: an existing key keeps its place
  and takes the new value, a new key goes to the end.
\<close>

definition set_prop :: "string \<Rightarrow> json \<Rightarrow> props \<Rightarrow> props" where
  "set_prop k v ps =
     (if k \<in> set (map fst ps)
      then map (\<lambda>(k', v'). if k' = k then (k', v) else (k', v')) ps
      else ps @ [(k, v)])"

text \<open>
  \<open>assign target src\<close> copies the properties of \<open>src\<close> onto \<open>target\<close> in their
  order, as one spread element of an object literal does.
\<close>

definition assign :: "props \<Rightarrow> props \<Rightarrow> props" where
  "assign target src = foldl (\<lambda>acc (k, v). set_prop k v acc) target src"

subsection \<open>Errors and the disk\<close>

datatype error = TypeError | SyntaxError | ENOENT | EACCES

text \<open>
  A file that can be read holds a JSON text, identified with the value it parses to, or
  a text that does not parse. A file that cannot be opened for reading has bytes of
  either kind all the same: no call of the store sees them, but a write replaces them.
  A path the map does not know is a file that does not exist.

  Writing replaces the bytes of a file and leaves its permissions as they are, so a
  file that could not be read before a write cannot be read after it; a file that did
  not exist is created readable. Writing always goes through: a full disk or a write
  the system refuses is outside this development, so the file that cannot be read is
  here one that can still be written, and a file closed to reading and writing alike
  is not modelled. The properties of \<open>insert\<close> that read the table back are stated
  for files that can be read.
\<close>

datatype file_bytes = JsonBytes json | BadBytes string

datatype file_content = JsonText json | BadText string | Unreadable file_bytes

type_synonym path = string
type_synonym disk = "path \<Rightarrow> file_content option"

datatype table = admins | products | services | bookings | gallery | videos | profiles

text \<open>The object \<open>dbFiles\<close>; paths are relative to the directory of the module.\<close>

fun dbFiles :: "table \<Rightarrow> path" where
  "dbFiles admins = ''data/admins.json''"
| "dbFiles products = ''data/products.json''"
| "dbFiles services = ''data/services.json''"
| "dbFiles bookings = ''data/bookings.json''"
| "dbFiles gallery = ''data/gallery.json''"
| "dbFiles videos = ''data/videos.json''"
| "dbFiles profiles = ''data/profiles.json''"

definition existsSync :: "path \<Rightarrow> disk \<Rightarrow> bool" where
  "existsSync p d = (d p \<noteq> None)"

definition readJsonSync :: "path \<Rightarrow> disk \<Rightarrow> error + json" where
  "readJsonSync p d =
     (case d p of
        None \<Rightarrow> Inl ENOENT
      | Some (Unreadable b) \<Rightarrow> Inl EACCES
      | Some (BadText s) \<Rightarrow> Inl SyntaxError
      | Some (JsonText j) \<Rightarrow> Inr j)"

definition writeJsonSync :: "path \<Rightarrow> json \<Rightarrow> disk \<Rightarrow> disk" where
  "writeJsonSync p j d =
     d(p \<mapsto> (case d p of
                Some (Unreadable b) \<Rightarrow> Unreadable (JsonBytes j)
              | _ \<Rightarrow> JsonText j))"

subsection \<open>Initialisation\<close>

text \<open>
  \<open>Object.values(dbFiles).forEach(...)\<close>: the files in the order of the object
  literal, each written with the empty array when it does not exist.
  \<open>ensureDirSync\<close> only makes the directory the files live in.
\<close>

definition all_tables :: "table list" where
  "all_tables = [admins, products, services, bookings, gallery, videos, profiles]"

definition init_file :: "disk \<Rightarrow> path \<Rightarrow> disk" where
  "init_file d p = (if \<not> existsSync p d then writeJsonSync p (JArr []) d else d)"

definition init_db :: "disk \<Rightarrow> disk" where
  "init_db d = foldl init_file d (map dbFiles all_tables)"

subsection \<open>The operations of \<open>db\<close>\<close>

definition db_read :: "table \<Rightarrow> disk \<Rightarrow> json" where
  "db_read t d =
     (case readJsonSync (dbFiles t) d of
        Inr j \<Rightarrow> j
      | Inl e \<Rightarrow> JArr [])"

definition db_write :: "table \<Rightarrow> json \<Rightarrow> disk \<Rightarrow> disk" where
  "db_write t j d = writeJsonSync (dbFiles t) j d"

text \<open>
  \<open>insert\<close> sets the two fields on the record it was given, pushes it and writes.
  \<open>data.push\<close> exists only on an array: on any other value read from the file the
  call raises a TypeError, after the record has been given its fields and before
  anything is written.
\<close>

definition stamp_record :: "props \<Rightarrow> int \<Rightarrow> string \<Rightarrow> props" where
  "stamp_record record now stamp =
     set_prop ''created_at'' (JStr stamp) (set_prop ''id'' (JNum now) record)"

definition db_insert :: "table \<Rightarrow> props \<Rightarrow> int \<Rightarrow> string \<Rightarrow> disk \<Rightarrow> (error + json) \<times> disk" where
  "db_insert t record now stamp d =
     (let data = db_read t d;
          record' = stamp_record record now stamp
      in case data of
           JArr xs \<Rightarrow> (Inr (JObj record'), db_write t (JArr (xs @ [JObj record'])) d)
         | _ \<Rightarrow> (Inl TypeError, d))"

subsection \<open>Numbers and strings\<close>

text \<open>
  \<open>number_to_string\<close> is \<open>Number.prototype.toString\<close> on the integers below
  \<open>10 ^ 21\<close> in magnitude, where it prints plain decimal digits.
\<close>

definition digit_char :: "nat \<Rightarrow> char" where
  "digit_char n = char_of (48 + n)"

fun digits_of :: "nat \<Rightarrow> string" where
  "digits_of n =
     (if n < 10 then [digit_char n] else digits_of (n div 10) @ [digit_char (n mod 10)])"

declare digits_of.simps [simp del]

definition number_to_string :: "int \<Rightarrow> string" where
  "number_to_string n =
     (if n < 0 then CHR ''-'' # digits_of (nat (- n)) else digits_of (nat n))"

text \<open>
  \<open>string_to_number\<close> is the conversion \<open>StringToNumber\<close> that \<open>==\<close> applies to
  a string operand: white space is trimmed, the empty string is 0, a literal is binary,
  octal or hexadecimal after its prefix and otherwise an optionally signed decimal
  literal with optional fraction and exponent. The result is \<open>None\<close> when the
  conversion gives \<open>NaN\<close>, an infinity or a fractional number: none of them equals a
  number of this development.
\<close>

definition is_ws :: "char \<Rightarrow> bool" where
  "is_ws c = ((of_char c :: nat) \<in> {9, 10, 11, 12, 13, 32, 160})"

definition trim :: "string \<Rightarrow> string" where
  "trim s = rev (dropWhile is_ws (rev (dropWhile is_ws s)))"

definition is_digit :: "char \<Rightarrow> bool" where
  "is_digit c = (48 \<le> (of_char c :: nat) \<and> (of_char c :: nat) \<le> 57)"

definition digits_value :: "string \<Rightarrow> nat" where
  "digits_value s = foldl (\<lambda>acc c. 10 * acc + ((of_char c :: nat) - 48)) 0 s"

definition digit_in :: "nat \<Rightarrow> char \<Rightarrow> nat option" where
  "digit_in radix c =
     (let k = (of_char c :: nat);
          v = (if 48 \<le> k \<and> k \<le> 57 then Some (k - 48)
               else if 97 \<le> k \<and> k \<le> 102 then Some (k - 87)
               else if 65 \<le> k \<and> k \<le> 70 then Some (k - 55)
               else None)
      in case v of
           Some n \<Rightarrow> if n < radix then Some n else None
         | None \<Rightarrow> None)"

fun radix_value :: "nat \<Rightarrow> nat \<Rightarrow> string \<Rightarrow> nat option" where
  "radix_value radix acc [] = Some acc"
| "radix_value radix acc (c # cs) =
     (case digit_in radix c of
        None \<Rightarrow> None
      | Some v \<Rightarrow> radix_value radix (radix * acc + v) cs)"

definition non_decimal :: "string \<Rightarrow> (nat \<times> string) option" where
  "non_decimal s =
     (case s of
        c0 # c1 # rest \<Rightarrow>
          if c0 \<noteq> CHR ''0'' then None
          else if c1 = CHR ''x'' \<or> c1 = CHR ''X'' then Some (16, rest)
          else if c1 = CHR ''o'' \<or> c1 = CHR ''O'' then Some (8, rest)
          else if c1 = CHR ''b'' \<or> c1 = CHR ''B'' then Some (2, rest)
          else None
      | _ \<Rightarrow> None)"

definition all_digits :: "string \<Rightarrow> nat option" where
  "all_digits s = (if s \<noteq> [] \<and> list_all is_digit s then Some (digits_value s) else None)"

definition exponent_part :: "string \<Rightarrow> int option" where
  "exponent_part s =
     (case s of
        [] \<Rightarrow> Some 0
      | c # rest \<Rightarrow>
          if c = CHR ''e'' \<or> c = CHR ''E'' then
            (case rest of
               [] \<Rightarrow> None
             | sg # ds \<Rightarrow>
                 if sg = CHR ''+'' then map_option int (all_digits ds)
                 else if sg = CHR ''-'' then map_option (\<lambda>n. - int n) (all_digits ds)
                 else map_option int (all_digits rest))
          else None)"

definition scale :: "nat \<Rightarrow> int \<Rightarrow> int option" where
  "scale m e =
     (if 0 \<le> e then Some (int m * 10 ^ nat e)
      else if 10 ^ nat (- e) dvd m then Some (int (m div 10 ^ nat (- e)))
      else None)"

definition unsigned_decimal :: "string \<Rightarrow> int option" where
  "unsigned_decimal u =
     (let ip = takeWhile is_digit u;
          r1 = dropWhile is_digit u;
          fp = (case r1 of
                  c # t \<Rightarrow> if c = CHR ''.'' then takeWhile is_digit t else []
                | [] \<Rightarrow> []);
          r2 = (case r1 of
                  c # t \<Rightarrow> if c = CHR ''.'' then dropWhile is_digit t else r1
                | [] \<Rightarrow> [])
      in if ip = [] \<and> fp = [] then None
         else case exponent_part r2 of
                None \<Rightarrow> None
              | Some e \<Rightarrow> scale (digits_value (ip @ fp)) (e - int (length fp)))"

definition string_to_number :: "string \<Rightarrow> int option" where
  "string_to_number s =
     (let t = trim s
      in if t = [] then Some 0
         else case non_decimal t of
                Some (radix, ds) \<Rightarrow>
                  if ds = [] then None else map_option int (radix_value radix 0 ds)
              | None \<Rightarrow>
                  (case t of
                     c # u \<Rightarrow>
                       if c = CHR ''+'' then unsigned_decimal u
                       else if c = CHR ''-'' then map_option uminus (unsigned_decimal u)
                       else unsigned_decimal t
                   | [] \<Rightarrow> None))"

subsection \<open>Loose equality\<close>

text \<open>
  The operands of \<open>item.id == id\<close>: a JSON value, or \<open>undefined\<close> for a property
  that is not there, or the \<open>NaN\<close> that \<open>parseInt\<close> hands to the store for an id
  that is no number.
\<close>

datatype jsval = Undefined | NaN | Val json

text \<open>
  \<open>join_elem\<close> is the string an array or object is converted to when it meets a
  primitive under \<open>==\<close>, and the string \<open>Array.prototype.join\<close> makes of an
  element. An array is the join of its elements, \<open>null\<close> joining as the empty string.
  A parsed object has no callable property of its own, so it prints through
  \<open>Object.prototype.toString\<close>, unless a property named \<open>toString\<close> hides that
  method: then the conversion finds nothing to call and raises a TypeError.
\<close>

fun join_strings :: "string list \<Rightarrow> string" where
  "join_strings [] = []"
| "join_strings [s] = s"
| "join_strings (s # t # ss) = s @ '','' @ join_strings (t # ss)"

fun first_error :: "(error + 'a) list \<Rightarrow> error + 'a list" where
  "first_error [] = Inr []"
| "first_error (Inl e # rs) = Inl e"
| "first_error (Inr x # rs) =
     (case first_error rs of Inl e \<Rightarrow> Inl e | Inr xs \<Rightarrow> Inr (x # xs))"

primrec join_elem :: "json \<Rightarrow> error + string" where
  "join_elem JNull = Inr []"
| "join_elem (JBool b) = Inr (if b then ''true'' else ''false'')"
| "join_elem (JNum n) = Inr (number_to_string n)"
| "join_elem (JStr s) = Inr s"
| "join_elem (JArr xs) =
     (case first_error (map join_elem xs) of
        Inl e \<Rightarrow> Inl e
      | Inr ss \<Rightarrow> Inr (join_strings ss))"
| "join_elem (JObj ps) =
     (if ''toString'' \<in> set (map fst ps) then Inl TypeError else Inr ''[object Object]'')"

text \<open>
  The cases of \<open>==\<close>. \<open>null\<close> and \<open>undefined\<close> equal each other and nothing
  else; a boolean is compared as the number 0 or 1; a number and a string are compared
  as numbers; an array or object is converted to its string against a primitive, and
  equals no other array or object, since every value read from the file is a fresh one.
\<close>

datatype prim = PNum int | PNaN | PStr string

datatype operand = Nullish | Prim prim | Object json

fun classify :: "jsval \<Rightarrow> operand" where
  "classify Undefined = Nullish"
| "classify (Val JNull) = Nullish"
| "classify NaN = Prim PNaN"
| "classify (Val (JBool b)) = Prim (PNum (if b then 1 else 0))"
| "classify (Val (JNum n)) = Prim (PNum n)"
| "classify (Val (JStr s)) = Prim (PStr s)"
| "classify (Val (JArr xs)) = Object (JArr xs)"
| "classify (Val (JObj ps)) = Object (JObj ps)"

fun prim_eq :: "prim \<Rightarrow> prim \<Rightarrow> bool" where
  "prim_eq (PNum a) (PNum b) = (a = b)"
| "prim_eq (PStr s) (PStr t) = (s = t)"
| "prim_eq (PNum a) (PStr t) = (string_to_number t = Some a)"
| "prim_eq (PStr s) (PNum b) = (string_to_number s = Some b)"
| "prim_eq PNaN q = False"
| "prim_eq p PNaN = False"

fun operand_eq :: "operand \<Rightarrow> operand \<Rightarrow> error + bool" where
  "operand_eq Nullish Nullish = Inr True"
| "operand_eq Nullish y = Inr False"
| "operand_eq x Nullish = Inr False"
| "operand_eq (Prim p) (Prim q) = Inr (prim_eq p q)"
| "operand_eq (Object a) (Prim q) =
     (case join_elem a of Inl e \<Rightarrow> Inl e | Inr s \<Rightarrow> Inr (prim_eq (PStr s) q))"
| "operand_eq (Prim p) (Object b) =
     (case join_elem b of Inl e \<Rightarrow> Inl e | Inr s \<Rightarrow> Inr (prim_eq p (PStr s)))"
| "operand_eq (Object a) (Object b) = Inr False"

definition loose_eq :: "jsval \<Rightarrow> jsval \<Rightarrow> error + bool" where
  "loose_eq x y = operand_eq (classify x) (classify y)"

subsection \<open>Scanning a table\<close>

text \<open>
  \<open>item.id\<close>: reading a property of \<open>null\<close> raises a TypeError; a number, string,
  boolean or array has no property \<open>id\<close>.
\<close>

definition get_id :: "json \<Rightarrow> error + jsval" where
  "get_id item =
     (case item of
        JNull \<Rightarrow> Inl TypeError
      | JObj ps \<Rightarrow> Inr (case get_prop ps ''id'' of None \<Rightarrow> Undefined | Some v \<Rightarrow> Val v)
      | _ \<Rightarrow> Inr Undefined)"

text \<open>The callback \<open>item => item.id == id\<close>.\<close>

definition id_matches :: "jsval \<Rightarrow> json \<Rightarrow> error + bool" where
  "id_matches i item =
     (case get_id item of
        Inl e \<Rightarrow> Inl e
      | Inr v \<Rightarrow> loose_eq v i)"

text \<open>
  \<open>Array.prototype.find\<close> and \<open>findIndex\<close> call the callback on the elements in
  index order and stop at the first it accepts; an exception of the callback ends the
  scan. \<open>None\<close> stands for the \<open>undefined\<close> of \<open>find\<close> and the \<open>-1\<close> of
  \<open>findIndex\<close>.
\<close>

fun array_find :: "('a \<Rightarrow> error + bool) \<Rightarrow> 'a list \<Rightarrow> error + 'a option" where
  "array_find p [] = Inr None"
| "array_find p (x # xs) =
     (case p x of
        Inl e \<Rightarrow> Inl e
      | Inr b \<Rightarrow> if b then Inr (Some x) else array_find p xs)"

fun array_findIndex :: "('a \<Rightarrow> error + bool) \<Rightarrow> 'a list \<Rightarrow> error + nat option" where
  "array_findIndex p [] = Inr None"
| "array_findIndex p (x # xs) =
     (case p x of
        Inl e \<Rightarrow> Inl e
      | Inr b \<Rightarrow>
          if b then Inr (Some 0)
          else (case array_findIndex p xs of
                  Inl e \<Rightarrow> Inl e
                | Inr None \<Rightarrow> Inr None
                | Inr (Some i) \<Rightarrow> Inr (Some (Suc i))))"

definition db_findById :: "table \<Rightarrow> jsval \<Rightarrow> disk \<Rightarrow> error + json option" where
  "db_findById t i d =
     (case db_read t d of
        JArr xs \<Rightarrow> array_find (id_matches i) xs
      | _ \<Rightarrow> Inl TypeError)"

text \<open>
  The own enumerable properties a spread element copies: those of an object, the
  indices of an array or of a string, none of any other value.
\<close>

definition spread :: "json \<Rightarrow> props" where
  "spread j =
     (case j of
        JObj ps \<Rightarrow> ps
      | JArr xs \<Rightarrow> zip (map digits_of [0..<length xs]) xs
      | JStr s \<Rightarrow> zip (map digits_of [0..<length s]) (map (\<lambda>c. JStr [c]) s)
      | _ \<Rightarrow> [])"

text \<open>
  \<open>{ ...data[index], ...updates, updated_at: ... }\<close> is a new object that takes the
  properties of the stored element, then those of \<open>updates\<close>, then the timestamp.
\<close>

definition merge_record :: "json \<Rightarrow> props \<Rightarrow> string \<Rightarrow> props" where
  "merge_record old updates stamp =
     set_prop ''updated_at'' (JStr stamp) (assign (assign [] (spread old)) updates)"

definition db_update ::
  "table \<Rightarrow> jsval \<Rightarrow> props \<Rightarrow> string \<Rightarrow> disk \<Rightarrow> (error + json option) \<times> disk" where
  "db_update t i updates stamp d =
     (case db_read t d of
        JArr xs \<Rightarrow>
          (case array_findIndex (id_matches i) xs of
             Inl e \<Rightarrow> (Inl e, d)
           | Inr None \<Rightarrow> (Inr None, d)
           | Inr (Some index) \<Rightarrow>
               (let merged = JObj (merge_record (xs ! index) updates stamp)
                in (Inr (Some merged), db_write t (JArr (xs[index := merged])) d)))
      | _ \<Rightarrow> (Inl TypeError, d))"

definition db_delete :: "table \<Rightarrow> jsval \<Rightarrow> disk \<Rightarrow> (error + bool) \<times> disk" where
  "db_delete t i d =
     (case db_read t d of
        JArr xs \<Rightarrow>
          (case array_findIndex (id_matches i) xs of
             Inl e \<Rightarrow> (Inl e, d)
           | Inr None \<Rightarrow> (Inr False, d)
           | Inr (Some index) \<Rightarrow>
               (Inr True, db_write t (JArr (take index xs @ drop (Suc index) xs)) d))
      | _ \<Rightarrow> (Inl TypeError, d))"

subsection \<open>Notions the properties are stated with\<close>

text \<open>
  The elements of a table an id is loosely equal to, and the tables on which no
  comparison with that id raises an exception.
\<close>

definition matching :: "jsval \<Rightarrow> json list \<Rightarrow> json list" where
  "matching i xs = filter (\<lambda>x. id_matches i x = Inr True) xs"

definition comparable :: "jsval \<Rightarrow> json list \<Rightarrow> bool" where
  "comparable i xs = list_all (\<lambda>x. \<not> isl (id_matches i x)) xs"

text \<open>A record that carries a number as its id, as every record \<open>insert\<close> makes does.\<close>

definition numeric_id :: "json \<Rightarrow> bool" where
  "numeric_id x =
     (case x of
        JObj ps \<Rightarrow> (case get_prop ps ''id'' of Some (JNum n) \<Rightarrow> True | _ \<Rightarrow> False)
      | _ \<Rightarrow> False)"

text \<open>
  The bytes of the file of a table are a JSON array, whether or not the file can be
  read; the file is missing; the file is there and cannot be read.
\<close>

definition holds_array :: "disk \<Rightarrow> table \<Rightarrow> bool" where
  "holds_array d t =
     (case d (dbFiles t) of
        Some (JsonText (JArr xs)) \<Rightarrow> True
      | Some (Unreadable (JsonBytes (JArr xs))) \<Rightarrow> True
      | _ \<Rightarrow> False)"

definition missing :: "disk \<Rightarrow> table \<Rightarrow> bool" where
  "missing d t = (d (dbFiles t) = None)"

definition unreadable :: "disk \<Rightarrow> table \<Rightarrow> bool" where
  "unreadable d t =
     (case d (dbFiles t) of
        Some (Unreadable b) \<Rightarrow> True
      | _ \<Rightarrow> False)"

subsection \<open>Sample tables\<close>

text \<open>
  Two products; a disk on which the file of \<open>bookings\<close> cannot be read; and a table in
  which the second and the third record carry ids that are loosely equal, the number 5
  and the string \<open>"5"\<close>.
\<close>

definition sample_products :: "json list" where
  "sample_products =
     [JObj [(''id'', JNum 1), (''name'', JStr ''A''), (''price'', JNum 10)],
      JObj [(''id'', JNum 2), (''name'', JStr ''B''), (''price'', JNum 5)]]"

definition sample_disk :: disk where
  "sample_disk = Map.empty(''data/products.json'' \<mapsto> JsonText (JArr sample_products))"

definition sample_duplicates :: "json list" where
  "sample_duplicates =
     [JObj [(''id'', JNum 7), (''n'', JNum 0)],
      JObj [(''id'', JNum 5), (''n'', JNum 1)],
      JObj [(''id'', JStr ''5''), (''n'', JNum 2)]]"

definition closed_disk :: disk where
  "closed_disk = Map.empty(''data/bookings.json'' \<mapsto> Unreadable (JsonBytes (JArr [])))"

definition duplicates_disk :: disk where
  "duplicates_disk = Map.empty(''data/services.json'' \<mapsto> JsonText (JArr sample_duplicates))"

section \<open>Properties\<close>

lemma get_prop_set_prop:
  "get_prop (set_prop k v ps) k' = (if k' = k then Some v else get_prop ps k')"
proof (cases "k \<in> set (map fst ps)")
  case False
  have app: "get_prop (qs @ [(k, v)]) k' =
      (if k' = k then Some v else get_prop qs k')" for qs
    by (induction qs) (auto split: option.splits)
  from False show ?thesis by (simp add: set_prop_def app)
next
  case True
  have upd: "k \<in> set (map fst qs) \<Longrightarrow>
      get_prop (map (\<lambda>(k', v'). if k' = k then (k', v) else (k', v')) qs) k' =
      (if k' = k then Some v else get_prop qs k')" for qs
  proof (induction qs)
    case Nil
    then show ?case by simp
  next
    case (Cons q qs)
    obtain a b where q: "q = (a, b)" by (cases q)
    show ?case
    proof (cases "k \<in> set (map fst qs)")
      case True
      with Cons.IH q show ?thesis by (auto split: option.splits)
    next
      case False
      then have same: "map (\<lambda>(k', v'). if k' = k then (k', v) else (k', v')) qs = qs"
        by (induction qs) auto
      have none: "get_prop qs k = None"
        using False by (induction qs) (auto split: option.splits)
      from False Cons.prems q have "a = k" by auto
      with same none q show ?thesis by (auto split: option.splits)
    qed
  qed
  from True show ?thesis by (simp add: set_prop_def upd)
qed

lemma get_prop_assign:
  "get_prop (assign a b) k = (case get_prop b k of Some v \<Rightarrow> Some v | None \<Rightarrow> get_prop a k)"
  unfolding assign_def
proof (induction b arbitrary: a)
  case Nil
  show ?case by simp
next
  case (Cons p b)
  obtain k0 v0 where p: "p = (k0, v0)" by (cases p)
  show ?case
    by (simp add: p Cons.IH get_prop_set_prop split: option.splits)
qed

lemma db_read_db_write: "\<not> unreadable d t \<Longrightarrow> db_read t (db_write t j d) = j"
  by (auto simp: unreadable_def db_read_def db_write_def readJsonSync_def writeJsonSync_def
      split: option.splits file_content.splits)

lemma db_read_db_write_unreadable:
  "unreadable d t \<Longrightarrow> db_read t (db_write t j d) = JArr []"
  by (auto simp: unreadable_def db_read_def db_write_def readJsonSync_def writeJsonSync_def
      split: option.splits file_content.splits)

lemma db_read_unreadable: "unreadable d t \<Longrightarrow> db_read t d = JArr []"
  by (auto simp: unreadable_def db_read_def readJsonSync_def
      split: option.splits file_content.splits)

lemma read_elements_readable: "db_read t d = JArr (pre @ x # post) \<Longrightarrow> \<not> unreadable d t"
  by (auto dest: db_read_unreadable)

lemma stamp_record_props:
  "get_prop (stamp_record record now stamp) k =
     (if k = ''created_at'' then Some (JStr stamp)
      else if k = ''id'' then Some (JNum now)
      else get_prop record k)"
  by (simp add: stamp_record_def get_prop_set_prop)

lemma db_insert_array:
  "db_read t d = JArr xs \<Longrightarrow>
   db_insert t record now stamp d =
     (Inr (JObj (stamp_record record now stamp)),
      db_write t (JArr (xs @ [JObj (stamp_record record now stamp)])) d)"
  by (simp add: db_insert_def Let_def)

lemma db_insert_not_array:
  "(\<forall>xs. db_read t d \<noteq> JArr xs) \<Longrightarrow> db_insert t record now stamp d = (Inl TypeError, d)"
  by (cases "db_read t d") (simp_all add: db_insert_def Let_def)

text \<open>
  On a file that cannot be read, \<open>insert\<close> reads the empty array, writes the record
  and returns it; the bytes of the file are then an array, and the table still reads
  as empty.
\<close>

lemma db_insert_unreadable:
  assumes "unreadable d t"
  shows "db_read t (snd (db_insert t record now stamp d)) = JArr []"
    and "unreadable (snd (db_insert t record now stamp d)) t"
    and "holds_array (snd (db_insert t record now stamp d)) t"
proof -
  from assms have "db_read t d = JArr []" by (rule db_read_unreadable)
  then have i: "snd (db_insert t record now stamp d) =
      db_write t (JArr ([] @ [JObj (stamp_record record now stamp)])) d"
    by (simp add: db_insert_array)
  from assms show "db_read t (snd (db_insert t record now stamp d)) = JArr []"
    unfolding i by (rule db_read_db_write_unreadable)
  from assms show "unreadable (snd (db_insert t record now stamp d)) t"
    unfolding i
    by (auto simp: unreadable_def db_write_def writeJsonSync_def
        split: option.splits file_content.splits)
  from assms show "holds_array (snd (db_insert t record now stamp d)) t"
    unfolding i
    by (auto simp: unreadable_def holds_array_def db_write_def writeJsonSync_def
        split: option.splits file_content.splits)
qed

lemma db_insert_closed_disk:
  "unreadable closed_disk bookings \<and>
   db_read bookings (snd (db_insert bookings [(''name'', JStr ''C'')] 42 ''2024'' closed_disk)) = JArr [] \<and>
   snd (db_insert bookings [(''name'', JStr ''C'')] 42 ''2024'' closed_disk) (dbFiles bookings) =
     Some (Unreadable (JsonBytes
       (JArr [JObj [(''name'', JStr ''C''), (''id'', JNum 42), (''created_at'', JStr ''2024'')]])))"
  by code_simp

subsection \<open>Reading\<close>

text \<open>
  C2. \<open>read\<close> returns the parsed content of the table's file when the file parses, in
  particular the array it holds, and the empty array when the file is missing, does
  not parse or cannot be read, whatever its bytes are: whatever \<open>readJsonSync\<close>
  raises, \<open>read\<close> returns the empty array and raises nothing.
\<close>

theorem db_read_recovers:
  "(\<forall>j. d (dbFiles t) = Some (JsonText j) \<longrightarrow> db_read t d = j) \<and>
   (d (dbFiles t) = None \<longrightarrow>
      readJsonSync (dbFiles t) d = Inl ENOENT \<and> db_read t d = JArr []) \<and>
   (\<forall>s. d (dbFiles t) = Some (BadText s) \<longrightarrow>
      readJsonSync (dbFiles t) d = Inl SyntaxError \<and> db_read t d = JArr []) \<and>
   (\<forall>b. d (dbFiles t) = Some (Unreadable b) \<longrightarrow>
      readJsonSync (dbFiles t) d = Inl EACCES \<and> db_read t d = JArr []) \<and>
   (\<forall>e. readJsonSync (dbFiles t) d = Inl e \<longrightarrow> db_read t d = JArr [])"
  by (simp add: db_read_def readJsonSync_def)

text \<open>The four states of the file of \<open>bookings\<close>.\<close>

theorem db_read_recovers_witness:
  "db_read bookings
     (Map.empty(''data/bookings.json'' \<mapsto> JsonText (JArr [JObj [(''id'', JNum 7)]])))
     = JArr [JObj [(''id'', JNum 7)]] \<and>
   db_read bookings Map.empty = JArr [] \<and>
   db_read bookings (Map.empty(''data/bookings.json'' \<mapsto> BadText ''[{'')) = JArr [] \<and>
   db_read bookings
     (Map.empty(''data/bookings.json'' \<mapsto> Unreadable (JsonBytes (JArr [JObj [(''id'', JNum 7)]]))))
     = JArr []"
  using
    db_read_recovers
      [of "Map.empty(''data/bookings.json'' \<mapsto> JsonText (JArr [JObj [(''id'', JNum 7)]]))"
          bookings]
    db_read_recovers [of Map.empty bookings]
    db_read_recovers [of "Map.empty(''data/bookings.json'' \<mapsto> BadText ''[{'')" bookings]
    db_read_recovers
      [of "Map.empty(''data/bookings.json'' \<mapsto>
             Unreadable (JsonBytes (JArr [JObj [(''id'', JNum 7)]])))"
          bookings]
  by simp

subsection \<open>Inserting\<close>

text \<open>
  C1, as the code has it. On a table that reads as an array and whose file, when it
  exists, can be read, \<open>insert\<close> returns the record it stored, and reading the table
  afterwards gives the old elements followed by that record. The record has the clock
  value as \<open>id\<close> and the timestamp as \<open>created_at\<close>; every other field is the
  caller's, and no field is added or lost. A \<open>created_at\<close> of the caller is
  overwritten like an \<open>id\<close> of the caller. A file that cannot be read is left out:
  it reads as empty after the insert as before.
\<close>

theorem db_insert_then_read:
  assumes "db_read t d = JArr xs" and "\<not> unreadable d t"
  shows "\<exists>r. fst (db_insert t record now stamp d) = Inr (JObj r) \<and>
             db_read t (snd (db_insert t record now stamp d)) = JArr (xs @ [JObj r]) \<and>
             get_prop r ''id'' = Some (JNum now) \<and>
             get_prop r ''created_at'' = Some (JStr stamp) \<and>
             (\<forall>k. k \<noteq> ''id'' \<and> k \<noteq> ''created_at'' \<longrightarrow> get_prop r k = get_prop record k)"
  using assms
  by (simp add: db_insert_array db_read_db_write stamp_record_props)

text \<open>A first insert into a table whose file does not exist yet.\<close>

theorem db_insert_then_read_witness:
  "db_read products Map.empty = JArr [] \<and>
   \<not> unreadable Map.empty products \<and>
   fst (db_insert products [(''name'', JStr ''A''), (''created_at'', JStr ''1999'')] 42 ''2024'' Map.empty)
     = Inr (JObj [(''name'', JStr ''A''), (''created_at'', JStr ''2024''), (''id'', JNum 42)]) \<and>
   db_read products
     (snd (db_insert products [(''name'', JStr ''A''), (''created_at'', JStr ''1999'')] 42 ''2024'' Map.empty))
     = JArr [JObj [(''name'', JStr ''A''), (''created_at'', JStr ''2024''), (''id'', JNum 42)]]"
proof -
  have h: "db_read products Map.empty = JArr []"
    by (simp add: db_read_def readJsonSync_def)
  have u: "\<not> unreadable Map.empty products"
    by (simp add: unreadable_def)
  from db_insert_then_read [OF h u, of "[(''name'', JStr ''A''), (''created_at'', JStr ''1999'')]" 42 "''2024''"]
  obtain r where
    "fst (db_insert products [(''name'', JStr ''A''), (''created_at'', JStr ''1999'')] 42 ''2024'' Map.empty)
       = Inr (JObj r)"
    "db_read products
       (snd (db_insert products [(''name'', JStr ''A''), (''created_at'', JStr ''1999'')] 42 ''2024'' Map.empty))
       = JArr ([] @ [JObj r])"
    by blast
  moreover have
    "fst (db_insert products [(''name'', JStr ''A''), (''created_at'', JStr ''1999'')] 42 ''2024'' Map.empty)
       = Inr (JObj [(''name'', JStr ''A''), (''created_at'', JStr ''2024''), (''id'', JNum 42)])"
    by code_simp
  ultimately show ?thesis using h u by simp
qed

text \<open>
  The record \<open>{name: "A", created_at: "1999"}\<close> inserted at clock value 42 is read
  back with the timestamp of the store as \<open>created_at\<close>: a field of the caller other
  than \<open>id\<close> that is not preserved.
\<close>

theorem db_insert_created_at_counterexample:
  "db_read products
     (snd (db_insert products [(''name'', JStr ''A''), (''created_at'', JStr ''1999'')] 42
             ''2024-05-01T10:00:00.000Z'' Map.empty))
   = JArr [JObj [(''name'', JStr ''A''), (''created_at'', JStr ''2024-05-01T10:00:00.000Z''),
                 (''id'', JNum 42)]] \<and>
   get_prop [(''name'', JStr ''A''), (''created_at'', JStr ''1999'')] ''created_at''
     \<noteq> get_prop [(''name'', JStr ''A''), (''created_at'', JStr ''2024-05-01T10:00:00.000Z''),
                 (''id'', JNum 42)] ''created_at''"
  by code_simp

text \<open>
  C6. Whenever \<open>insert\<close> returns, the record it returns has the clock value as
  \<open>id\<close> and the timestamp as \<open>created_at\<close>, so an \<open>id\<close> of the caller that
  differs from the clock value is not the id returned. On a table that reads as an
  array, and whose file can be read when it exists, \<open>insert\<close> does return and
  stores that record last; on a file that holds a JSON text other than an array it
  raises a TypeError and writes nothing.
\<close>

theorem db_insert_assigns_clock:
  "(\<forall>r. fst (db_insert t record now stamp d) = Inr r \<longrightarrow>
      (\<exists>ps. r = JObj ps \<and>
            get_prop ps ''id'' = Some (JNum now) \<and>
            get_prop ps ''created_at'' = Some (JStr stamp) \<and>
            (\<forall>c. get_prop record ''id'' = Some c \<and> c \<noteq> JNum now \<longrightarrow>
                 get_prop ps ''id'' \<noteq> Some c))) \<and>
   (\<forall>xs. db_read t d = JArr xs \<and> \<not> unreadable d t \<longrightarrow>
      (\<exists>r. fst (db_insert t record now stamp d) = Inr r \<and>
           db_read t (snd (db_insert t record now stamp d)) = JArr (xs @ [r]))) \<and>
   ((\<forall>xs. db_read t d \<noteq> JArr xs) \<longrightarrow> db_insert t record now stamp d = (Inl TypeError, d))"
proof (cases "\<exists>xs. db_read t d = JArr xs")
  case True
  then obtain xs where "db_read t d = JArr xs" by blast
  then show ?thesis
    by (auto simp: db_insert_array db_read_db_write stamp_record_props)
next
  case False
  then have "\<forall>xs. db_read t d \<noteq> JArr xs" by simp
  then show ?thesis by (simp add: db_insert_not_array)
qed

text \<open>A record that comes with the id 7 is stored under the clock value.\<close>

theorem db_insert_assigns_clock_witness:
  "db_read products sample_disk = JArr sample_products \<and>
   \<not> unreadable sample_disk products \<and>
   db_read products
     (snd (db_insert products [(''id'', JNum 7), (''name'', JStr ''C'')] 1700000000000 ''2024'' sample_disk)) =
     JArr (sample_products @
       [JObj [(''id'', JNum 1700000000000), (''name'', JStr ''C''), (''created_at'', JStr ''2024'')]]) \<and>
   fst (db_insert products [(''id'', JNum 7), (''name'', JStr ''C'')] 1700000000000 ''2024'' sample_disk) =
     Inr (JObj [(''id'', JNum 1700000000000), (''name'', JStr ''C''), (''created_at'', JStr ''2024'')]) \<and>
   get_prop [(''id'', JNum 7), (''name'', JStr ''C'')] ''id'' = Some (JNum 7) \<and>
   get_prop [(''id'', JNum 1700000000000), (''name'', JStr ''C''), (''created_at'', JStr ''2024'')] ''id''
     \<noteq> Some (JNum 7)"
proof -
  have h: "db_read products sample_disk = JArr sample_products" by code_simp
  have f: "fst (db_insert products [(''id'', JNum 7), (''name'', JStr ''C'')] 1700000000000 ''2024'' sample_disk) =
     Inr (JObj [(''id'', JNum 1700000000000), (''name'', JStr ''C''), (''created_at'', JStr ''2024'')])"
    by code_simp
  have c: "get_prop [(''id'', JNum 7), (''name'', JStr ''C'')] ''id'' = Some (JNum 7)"
    by simp
  have u: "\<not> unreadable sample_disk products" by code_simp
  from db_insert_assigns_clock
    [of products "[(''id'', JNum 7), (''name'', JStr ''C'')]" 1700000000000 "''2024''" sample_disk] f c
  have g: "get_prop [(''id'', JNum 1700000000000), (''name'', JStr ''C''), (''created_at'', JStr ''2024'')] ''id''
     \<noteq> Some (JNum 7)"
    by auto
  from db_insert_assigns_clock
    [of products "[(''id'', JNum 7), (''name'', JStr ''C'')]" 1700000000000 "''2024''" sample_disk] h u
  obtain r where
    "fst (db_insert products [(''id'', JNum 7), (''name'', JStr ''C'')] 1700000000000 ''2024'' sample_disk) =
       Inr r"
    "db_read products
       (snd (db_insert products [(''id'', JNum 7), (''name'', JStr ''C'')] 1700000000000 ''2024'' sample_disk)) =
       JArr (sample_products @ [r])"
    by blast
  with h u f c g show ?thesis by simp
qed

subsection \<open>Scanning, updating and deleting\<close>

lemma get_prop_merge_record:
  "get_prop (merge_record (JObj old) updates stamp) k =
     (if k = ''updated_at'' then Some (JStr stamp)
      else case get_prop updates k of Some v \<Rightarrow> Some v | None \<Rightarrow> get_prop old k)"
  by (simp add: merge_record_def spread_def get_prop_set_prop get_prop_assign
      split: option.splits)

lemma array_findIndex_first:
  "\<forall>y\<in>set pre. p y = Inr False \<Longrightarrow> p x = Inr True \<Longrightarrow>
   array_findIndex p (pre @ x # post) = Inr (Some (length pre))"
  by (induction pre) simp_all

lemma array_findIndex_none:
  "\<forall>y\<in>set xs. p y = Inr False \<Longrightarrow> array_findIndex p xs = Inr None"
  by (induction xs) simp_all

lemma db_update_first:
  assumes "db_read t d = JArr (pre @ x # post)"
    and "\<forall>y\<in>set pre. id_matches i y = Inr False"
    and "id_matches i x = Inr True"
  shows "db_update t i updates stamp d =
     (Inr (Some (JObj (merge_record x updates stamp))),
      db_write t (JArr (pre @ JObj (merge_record x updates stamp) # post)) d)"
  using assms by (simp add: db_update_def array_findIndex_first Let_def)

lemma db_delete_first:
  assumes "db_read t d = JArr (pre @ x # post)"
    and "\<forall>y\<in>set pre. id_matches i y = Inr False"
    and "id_matches i x = Inr True"
  shows "db_delete t i d = (Inr True, db_write t (JArr (pre @ post)) d)"
  using assms by (simp add: db_delete_def array_findIndex_first)

lemma db_delete_none:
  assumes "db_read t d = JArr xs" and "\<forall>y\<in>set xs. id_matches i y = Inr False"
  shows "db_delete t i d = (Inr False, d)"
  using assms by (simp add: db_delete_def array_findIndex_none)

lemma first_match_split:
  "comparable i xs \<Longrightarrow> matching i xs \<noteq> [] \<Longrightarrow>
   \<exists>pre x post. xs = pre @ x # post \<and> (\<forall>y\<in>set pre. id_matches i y = Inr False) \<and>
      id_matches i x = Inr True \<and> matching i xs = x # matching i post"
proof (induction xs)
  case Nil
  then show ?case by (simp add: matching_def)
next
  case (Cons a xs)
  from Cons.prems(1) obtain b where b: "id_matches i a = Inr b"
    by (cases "id_matches i a") (simp_all add: comparable_def)
  show ?case
  proof (cases b)
    case True
    with b have "a # xs = [] @ a # xs \<and> (\<forall>y\<in>set []. id_matches i y = Inr False) \<and>
      id_matches i a = Inr True \<and> matching i (a # xs) = a # matching i xs"
      by (simp add: matching_def)
    then show ?thesis by blast
  next
    case False
    with b Cons.prems have "comparable i xs" "matching i xs \<noteq> []"
      by (simp_all add: comparable_def matching_def)
    from Cons.IH [OF this] obtain pre x post where
      s: "xs = pre @ x # post" "\<forall>y\<in>set pre. id_matches i y = Inr False"
         "id_matches i x = Inr True" "matching i xs = x # matching i post"
      by blast
    from s b False have "a # xs = (a # pre) @ x # post \<and>
      (\<forall>y\<in>set (a # pre). id_matches i y = Inr False) \<and>
      id_matches i x = Inr True \<and> matching i (a # xs) = x # matching i post"
      by (simp add: matching_def)
    then show ?thesis by blast
  qed
qed

lemma no_match_all_false:
  "comparable i xs \<Longrightarrow> matching i xs = [] \<Longrightarrow> \<forall>y\<in>set xs. id_matches i y = Inr False"
proof (induction xs)
  case Nil
  then show ?case by simp
next
  case (Cons a xs)
  from Cons.prems(1) obtain b where b: "id_matches i a = Inr b"
    by (cases "id_matches i a") (simp_all add: comparable_def)
  from Cons.prems(2) b have nb: "\<not> b" and rest: "matching i xs = []"
    by (auto simp: matching_def split: if_splits)
  from Cons.prems(1) have "comparable i xs" by (simp add: comparable_def)
  from Cons.IH [OF this rest] b nb show ?case by simp
qed

lemma no_match_filter:
  "matching i zs = [] \<Longrightarrow> filter (\<lambda>x. id_matches i x \<noteq> Inr True) zs = zs"
  by (induction zs) (simp_all add: matching_def split: if_splits)

lemma id_matches_number:
  "get_prop r ''id'' = Some (JNum n) \<Longrightarrow> id_matches (Val (JNum m)) (JObj r) = Inr (n = m)"
  by (simp add: id_matches_def get_id_def loose_eq_def)

text \<open>
  C3. In a table where the first record whose id is loosely equal to 1 has the id 1,
  the name \<open>"A"\<close> and the price 10, \<open>update(table, 1, {price: 20})\<close> returns the
  record it stores in the place of the old one: id 1, name \<open>"A"\<close>, price 20 and the
  timestamp as \<open>updated_at\<close>. Every field the update does not name is kept as it
  was; for the record \<open>{id: 1, name: "A", price: 10}\<close> the result is exactly
  \<open>{id: 1, name: "A", price: 20, updated_at: stamp}\<close>.
\<close>

theorem db_update_keeps_fields:
  assumes "db_read t d = JArr (pre @ JObj r # post)"
    and "\<forall>y\<in>set pre. id_matches (Val (JNum 1)) y = Inr False"
    and "get_prop r ''id'' = Some (JNum 1)"
    and "get_prop r ''name'' = Some (JStr ''A'')"
    and "get_prop r ''price'' = Some (JNum 10)"
  shows "\<exists>m. fst (db_update t (Val (JNum 1)) [(''price'', JNum 20)] stamp d) = Inr (Some (JObj m)) \<and>
             db_read t (snd (db_update t (Val (JNum 1)) [(''price'', JNum 20)] stamp d)) =
               JArr (pre @ JObj m # post) \<and>
             get_prop m ''id'' = Some (JNum 1) \<and>
             get_prop m ''name'' = Some (JStr ''A'') \<and>
             get_prop m ''price'' = Some (JNum 20) \<and>
             get_prop m ''updated_at'' = Some (JStr stamp) \<and>
             (\<forall>k. k \<noteq> ''price'' \<and> k \<noteq> ''updated_at'' \<longrightarrow> get_prop m k = get_prop r k) \<and>
             (r = [(''id'', JNum 1), (''name'', JStr ''A''), (''price'', JNum 10)] \<longrightarrow>
              m = [(''id'', JNum 1), (''name'', JStr ''A''), (''price'', JNum 20),
                   (''updated_at'', JStr stamp)])"
proof -
  from assms(1) have rd: "\<not> unreadable d t" by (rule read_elements_readable)
  from assms(3) have "id_matches (Val (JNum 1)) (JObj r) = Inr True"
    by (simp add: id_matches_number)
  from db_update_first [OF assms(1,2) this]
  have u: "db_update t (Val (JNum 1)) [(''price'', JNum 20)] stamp d =
     (Inr (Some (JObj (merge_record (JObj r) [(''price'', JNum 20)] stamp))),
      db_write t (JArr (pre @ JObj (merge_record (JObj r) [(''price'', JNum 20)] stamp) # post)) d)" .
  have exact: "merge_record (JObj [(''id'', JNum 1), (''name'', JStr ''A''), (''price'', JNum 10)])
      [(''price'', JNum 20)] stamp =
      [(''id'', JNum 1), (''name'', JStr ''A''), (''price'', JNum 20), (''updated_at'', JStr stamp)]"
    by (simp add: merge_record_def spread_def assign_def set_prop_def)
  show ?thesis
    using assms(3-5) exact rd
    by (simp add: u db_read_db_write get_prop_merge_record)
qed

text \<open>The two sample products, the first one updated.\<close>

theorem db_update_keeps_fields_witness:
  "db_read products sample_disk =
     JArr ([] @ JObj [(''id'', JNum 1), (''name'', JStr ''A''), (''price'', JNum 10)] #
             [JObj [(''id'', JNum 2), (''name'', JStr ''B''), (''price'', JNum 5)]]) \<and>
   fst (db_update products (Val (JNum 1)) [(''price'', JNum 20)] ''2024'' sample_disk) =
     Inr (Some (JObj [(''id'', JNum 1), (''name'', JStr ''A''), (''price'', JNum 20),
                      (''updated_at'', JStr ''2024'')])) \<and>
   db_read products (snd (db_update products (Val (JNum 1)) [(''price'', JNum 20)] ''2024'' sample_disk)) =
     JArr [JObj [(''id'', JNum 1), (''name'', JStr ''A''), (''price'', JNum 20),
                 (''updated_at'', JStr ''2024'')],
           JObj [(''id'', JNum 2), (''name'', JStr ''B''), (''price'', JNum 5)]]"
proof -
  have h: "db_read products sample_disk =
     JArr ([] @ JObj [(''id'', JNum 1), (''name'', JStr ''A''), (''price'', JNum 10)] #
             [JObj [(''id'', JNum 2), (''name'', JStr ''B''), (''price'', JNum 5)]])"
    by code_simp
  have p: "\<forall>y\<in>set []. id_matches (Val (JNum 1)) y = Inr False" by simp
  from db_update_keeps_fields [OF h p, of "''2024''"]
  obtain m where
    "fst (db_update products (Val (JNum 1)) [(''price'', JNum 20)] ''2024'' sample_disk) =
       Inr (Some (JObj m))"
    "db_read products (snd (db_update products (Val (JNum 1)) [(''price'', JNum 20)] ''2024'' sample_disk)) =
       JArr ([] @ JObj m # [JObj [(''id'', JNum 2), (''name'', JStr ''B''), (''price'', JNum 5)]])"
    "m = [(''id'', JNum 1), (''name'', JStr ''A''), (''price'', JNum 20), (''updated_at'', JStr ''2024'')]"
    by auto
  with h show ?thesis by simp
qed

text \<open>
  C4. On a table whose records can all be compared with the id: when exactly one
  record matches, \<open>delete\<close> returns true and the table read afterwards is one
  shorter, the old table without the matching record; when no record matches,
  \<open>delete\<close> returns false and the disk is the one it was.
\<close>

theorem db_delete_removes_one:
  assumes "db_read t d = JArr xs" and "comparable i xs"
  shows "(length (matching i xs) = 1 \<longrightarrow>
            fst (db_delete t i d) = Inr True \<and>
            (\<exists>ys. db_read t (snd (db_delete t i d)) = JArr ys \<and>
                  Suc (length ys) = length xs \<and>
                  ys = filter (\<lambda>x. id_matches i x \<noteq> Inr True) xs)) \<and>
         (matching i xs = [] \<longrightarrow> db_delete t i d = (Inr False, d))"
proof (intro conjI impI)
  assume one: "length (matching i xs) = 1"
  then have "matching i xs \<noteq> []" by auto
  from first_match_split [OF assms(2) this] obtain pre x post where
    s: "xs = pre @ x # post" "\<forall>y\<in>set pre. id_matches i y = Inr False"
       "id_matches i x = Inr True" "matching i xs = x # matching i post"
    by blast
  from assms(1) s have del: "db_delete t i d = (Inr True, db_write t (JArr (pre @ post)) d)"
    by (simp add: db_delete_first)
  from assms(1) s(1) have rd: "\<not> unreadable d t" by (simp add: read_elements_readable)
  from one s(4) have "matching i post = []" by simp
  then have post: "filter (\<lambda>x. id_matches i x \<noteq> Inr True) post = post"
    by (rule no_match_filter)
  from s(2) have "matching i pre = []" by (simp add: matching_def)
  then have pre: "filter (\<lambda>x. id_matches i x \<noteq> Inr True) pre = pre"
    by (rule no_match_filter)
  from s(1,3) pre post have "filter (\<lambda>x. id_matches i x \<noteq> Inr True) xs = pre @ post"
    by simp
  with del s(1) rd show "fst (db_delete t i d) = Inr True"
    and "\<exists>ys. db_read t (snd (db_delete t i d)) = JArr ys \<and>
              Suc (length ys) = length xs \<and>
              ys = filter (\<lambda>x. id_matches i x \<noteq> Inr True) xs"
    by (simp_all add: db_read_db_write)
next
  assume "matching i xs = []"
  with assms show "db_delete t i d = (Inr False, d)"
    by (simp add: db_delete_none no_match_all_false)
qed

text \<open>Deleting the product 2, and the product 3 that is not there.\<close>

theorem db_delete_removes_one_witness:
  "db_read products sample_disk = JArr sample_products \<and>
   comparable (Val (JNum 2)) sample_products \<and>
   length (matching (Val (JNum 2)) sample_products) = 1 \<and>
   fst (db_delete products (Val (JNum 2)) sample_disk) = Inr True \<and>
   db_read products (snd (db_delete products (Val (JNum 2)) sample_disk)) =
     JArr [JObj [(''id'', JNum 1), (''name'', JStr ''A''), (''price'', JNum 10)]] \<and>
   comparable (Val (JNum 3)) sample_products \<and>
   matching (Val (JNum 3)) sample_products = [] \<and>
   db_delete products (Val (JNum 3)) sample_disk = (Inr False, sample_disk)"
proof -
  have h: "db_read products sample_disk = JArr sample_products" by code_simp
  have c2: "comparable (Val (JNum 2)) sample_products" by code_simp
  have m2: "length (matching (Val (JNum 2)) sample_products) = 1" by code_simp
  have c3: "comparable (Val (JNum 3)) sample_products" by code_simp
  have m3: "matching (Val (JNum 3)) sample_products = []" by code_simp
  have r: "db_read products (snd (db_delete products (Val (JNum 2)) sample_disk)) =
     JArr [JObj [(''id'', JNum 1), (''name'', JStr ''A''), (''price'', JNum 10)]]"
    by code_simp
  from db_delete_removes_one [OF h c2] m2
  have "fst (db_delete products (Val (JNum 2)) sample_disk) = Inr True" by blast
  moreover from db_delete_removes_one [OF h c3] m3
  have "db_delete products (Val (JNum 3)) sample_disk = (Inr False, sample_disk)" by blast
  ultimately show ?thesis using h c2 m2 c3 m3 r by simp
qed

text \<open>
  C7. \<open>update\<close> and \<open>delete\<close> work on the first record, in index order, whose
  id is loosely equal to the argument: the records before it and all records after it,
  matching or not, are stored as they were and in their order.
\<close>

theorem first_match_only:
  assumes "db_read t d = JArr (pre @ x # post)"
    and "\<forall>y\<in>set pre. id_matches i y = Inr False"
    and "id_matches i x = Inr True"
  shows "fst (db_update t i updates stamp d) = Inr (Some (JObj (merge_record x updates stamp))) \<and>
         db_read t (snd (db_update t i updates stamp d)) =
           JArr (pre @ JObj (merge_record x updates stamp) # post) \<and>
         fst (db_delete t i d) = Inr True \<and>
         db_read t (snd (db_delete t i d)) = JArr (pre @ post)"
  using assms read_elements_readable [OF assms(1)]
  by (simp add: db_update_first db_delete_first db_read_db_write)

text \<open>
  The ids 5 and \<open>"5"\<close> both match the argument 5; only the record with the
  number, which comes first, is updated or deleted.
\<close>

theorem first_match_only_witness:
  "db_read services duplicates_disk =
     JArr ([JObj [(''id'', JNum 7), (''n'', JNum 0)]] @ JObj [(''id'', JNum 5), (''n'', JNum 1)] #
             [JObj [(''id'', JStr ''5''), (''n'', JNum 2)]]) \<and>
   id_matches (Val (JNum 5)) (JObj [(''id'', JNum 7), (''n'', JNum 0)]) = Inr False \<and>
   id_matches (Val (JNum 5)) (JObj [(''id'', JNum 5), (''n'', JNum 1)]) = Inr True \<and>
   id_matches (Val (JNum 5)) (JObj [(''id'', JStr ''5''), (''n'', JNum 2)]) = Inr True \<and>
   db_read services (snd (db_update services (Val (JNum 5)) [(''n'', JNum 9)] ''2024'' duplicates_disk)) =
     JArr [JObj [(''id'', JNum 7), (''n'', JNum 0)],
           JObj [(''id'', JNum 5), (''n'', JNum 9), (''updated_at'', JStr ''2024'')],
           JObj [(''id'', JStr ''5''), (''n'', JNum 2)]] \<and>
   fst (db_delete services (Val (JNum 5)) duplicates_disk) = Inr True \<and>
   db_read services (snd (db_delete services (Val (JNum 5)) duplicates_disk)) =
     JArr [JObj [(''id'', JNum 7), (''n'', JNum 0)],
           JObj [(''id'', JStr ''5''), (''n'', JNum 2)]]"
proof -
  have h: "db_read services duplicates_disk =
     JArr ([JObj [(''id'', JNum 7), (''n'', JNum 0)]] @ JObj [(''id'', JNum 5), (''n'', JNum 1)] #
             [JObj [(''id'', JStr ''5''), (''n'', JNum 2)]])"
    by code_simp
  have a: "id_matches (Val (JNum 5)) (JObj [(''id'', JNum 7), (''n'', JNum 0)]) = Inr False"
    by code_simp
  have b: "id_matches (Val (JNum 5)) (JObj [(''id'', JNum 5), (''n'', JNum 1)]) = Inr True"
    by code_simp
  have c: "id_matches (Val (JNum 5)) (JObj [(''id'', JStr ''5''), (''n'', JNum 2)]) = Inr True"
    by code_simp
  from a have p: "\<forall>y\<in>set [JObj [(''id'', JNum 7), (''n'', JNum 0)]]. id_matches (Val (JNum 5)) y = Inr False"
    by simp
  have mr: "merge_record (JObj [(''id'', JNum 5), (''n'', JNum 1)]) [(''n'', JNum 9)] ''2024'' =
     [(''id'', JNum 5), (''n'', JNum 9), (''updated_at'', JStr ''2024'')]"
    by code_simp
  from first_match_only [OF h p b, of "[(''n'', JNum 9)]" "''2024''"] mr a b c h
  show ?thesis by simp
qed

text \<open>
  C10. The record \<open>update\<close> stores and returns has, for every field name, the
  timestamp of the call when the name is \<open>updated_at\<close>, else the value of
  \<open>partialFields\<close> when it has the name, else the value of the old record. So an
  \<open>updated_at\<close> in \<open>partialFields\<close> is never stored, while an \<open>id\<close> or a
  \<open>created_at\<close> in \<open>partialFields\<close> replaces the one of the record.
\<close>

theorem db_update_merge_order:
  assumes "db_read t d = JArr (pre @ JObj old # post)"
    and "\<forall>y\<in>set pre. id_matches i y = Inr False"
    and "id_matches i (JObj old) = Inr True"
  shows "\<exists>m. fst (db_update t i updates stamp d) = Inr (Some (JObj m)) \<and>
             db_read t (snd (db_update t i updates stamp d)) = JArr (pre @ JObj m # post) \<and>
             (\<forall>k. get_prop m k =
                (if k = ''updated_at'' then Some (JStr stamp)
                 else case get_prop updates k of Some v \<Rightarrow> Some v | None \<Rightarrow> get_prop old k)) \<and>
             get_prop m ''updated_at'' = Some (JStr stamp) \<and>
             (\<forall>v. get_prop updates ''id'' = Some v \<longrightarrow> get_prop m ''id'' = Some v) \<and>
             (\<forall>v. get_prop updates ''created_at'' = Some v \<longrightarrow> get_prop m ''created_at'' = Some v)"
  using assms read_elements_readable [OF assms(1)]
  by (simp add: db_update_first db_read_db_write get_prop_merge_record)

text \<open>
  An update that brings its own \<open>updated_at\<close>, \<open>id\<close> and \<open>created_at\<close>.
\<close>

theorem db_update_merge_order_witness:
  "db_read products sample_disk =
     JArr ([] @ JObj [(''id'', JNum 1), (''name'', JStr ''A''), (''price'', JNum 10)] #
             [JObj [(''id'', JNum 2), (''name'', JStr ''B''), (''price'', JNum 5)]]) \<and>
   id_matches (Val (JNum 1)) (JObj [(''id'', JNum 1), (''name'', JStr ''A''), (''price'', JNum 10)])
     = Inr True \<and>
   fst (db_update products (Val (JNum 1))
          [(''updated_at'', JStr ''1999''), (''id'', JNum 77), (''created_at'', JStr ''1998'')]
          ''2024'' sample_disk) =
     Inr (Some (JObj [(''id'', JNum 77), (''name'', JStr ''A''), (''price'', JNum 10),
                      (''updated_at'', JStr ''2024''), (''created_at'', JStr ''1998'')]))"
proof -
  have h: "db_read products sample_disk =
     JArr ([] @ JObj [(''id'', JNum 1), (''name'', JStr ''A''), (''price'', JNum 10)] #
             [JObj [(''id'', JNum 2), (''name'', JStr ''B''), (''price'', JNum 5)]])"
    by code_simp
  have p: "\<forall>y\<in>set []. id_matches (Val (JNum 1)) y = Inr False" by simp
  have b: "id_matches (Val (JNum 1)) (JObj [(''id'', JNum 1), (''name'', JStr ''A''), (''price'', JNum 10)])
     = Inr True"
    by code_simp
  have e: "fst (db_update products (Val (JNum 1))
          [(''updated_at'', JStr ''1999''), (''id'', JNum 77), (''created_at'', JStr ''1998'')]
          ''2024'' sample_disk) =
     Inr (Some (JObj [(''id'', JNum 77), (''name'', JStr ''A''), (''price'', JNum 10),
                      (''updated_at'', JStr ''2024''), (''created_at'', JStr ''1998'')]))"
    by code_simp
  from db_update_merge_order [OF h p b,
      of "[(''updated_at'', JStr ''1999''), (''id'', JNum 77), (''created_at'', JStr ''1998'')]" "''2024''"]
  obtain m where
    "fst (db_update products (Val (JNum 1))
          [(''updated_at'', JStr ''1999''), (''id'', JNum 77), (''created_at'', JStr ''1998'')]
          ''2024'' sample_disk) = Inr (Some (JObj m))"
    "get_prop m ''updated_at'' = Some (JStr ''2024'')"
    by blast
  with e h b show ?thesis by simp
qed

subsection \<open>Numbers and the strings that print them\<close>

lemma of_char_digit_char: "n < 10 \<Longrightarrow> (of_char (digit_char n) :: nat) = 48 + n"
  by (simp add: digit_char_def)

lemma is_digit_digit_char: "n < 10 \<Longrightarrow> is_digit (digit_char n)"
  by (simp add: is_digit_def of_char_digit_char)

lemma digits_of_digits: "list_all is_digit (digits_of n)"
proof (induction n rule: digits_of.induct)
  case (1 n)
  show ?case
  proof (cases "n < 10")
    case True
    then show ?thesis by (simp add: digits_of.simps [of n] is_digit_digit_char)
  next
    case False
    with "1" show ?thesis by (simp add: digits_of.simps [of n] is_digit_digit_char)
  qed
qed

lemma digits_of_nonempty: "digits_of n \<noteq> []"
  by (simp add: digits_of.simps [of n])

lemma digits_value_snoc:
  "digits_value (s @ [c]) = 10 * digits_value s + ((of_char c :: nat) - 48)"
  by (simp add: digits_value_def)

lemma digits_value_digits_of: "digits_value (digits_of n) = n"
proof (induction n rule: digits_of.induct)
  case (1 n)
  show ?case
  proof (cases "n < 10")
    case True
    then show ?thesis
      by (simp add: digits_of.simps [of n] digits_value_def of_char_digit_char)
  next
    case False
    with "1" show ?thesis
      by (simp add: digits_of.simps [of n] digits_value_snoc of_char_digit_char)
  qed
qed

lemma digit_not_ws: "is_digit c \<Longrightarrow> \<not> is_ws c"
  by (auto simp: is_digit_def is_ws_def)

lemma trim_id:
  assumes "s \<noteq> []" and "\<not> is_ws (hd s)" and "\<not> is_ws (last s)"
  shows "trim s = s"
proof -
  from assms(1,2) have "dropWhile is_ws s = s" by (cases s) simp_all
  moreover from assms(1,3) have "dropWhile is_ws (rev s) = rev s"
    by (cases "rev s") (simp_all add: hd_rev [symmetric])
  ultimately show ?thesis by (simp add: trim_def)
qed

lemma digit_not_prefix_letter:
  "is_digit c \<Longrightarrow> c \<noteq> CHR ''x'' \<and> c \<noteq> CHR ''X'' \<and> c \<noteq> CHR ''o'' \<and> c \<noteq> CHR ''O'' \<and>
     c \<noteq> CHR ''b'' \<and> c \<noteq> CHR ''B'' \<and> c \<noteq> CHR ''+'' \<and> c \<noteq> CHR ''-''"
  by (auto simp: is_digit_def)

lemma non_decimal_digits:
  assumes "list_all is_digit s"
  shows "non_decimal s = None"
proof (cases s)
  case Nil
  then show ?thesis by (simp add: non_decimal_def)
next
  case (Cons c0 r)
  show ?thesis
  proof (cases r)
    case Nil
    with Cons show ?thesis by (simp add: non_decimal_def)
  next
    case (Cons c1 rest)
    with assms \<open>s = c0 # r\<close> have "is_digit c1" by simp
    from digit_not_prefix_letter [OF this] Cons \<open>s = c0 # r\<close>
    show ?thesis by (simp add: non_decimal_def)
  qed
qed

lemma unsigned_decimal_digits:
  assumes "s \<noteq> []" and "list_all is_digit s"
  shows "unsigned_decimal s = Some (int (digits_value s))"
proof -
  from assms(2) have tw: "takeWhile is_digit s = s" and dw: "dropWhile is_digit s = []"
    by (simp_all add: list_all_iff)
  from assms(1) show ?thesis
    by (simp add: unsigned_decimal_def Let_def tw dw exponent_part_def scale_def)
qed

lemma string_to_number_digits:
  assumes "s \<noteq> []" and "list_all is_digit s"
  shows "string_to_number s = Some (int (digits_value s))"
proof -
  from assms have hd: "is_digit (hd s)" and lst: "is_digit (last s)"
    by (simp_all add: list_all_iff)
  with assms(1) have t: "trim s = s" by (simp add: trim_id digit_not_ws)
  from assms(2) have nd: "non_decimal s = None" by (rule non_decimal_digits)
  from hd have sign: "hd s \<noteq> CHR ''+''" "hd s \<noteq> CHR ''-''"
    by (simp_all add: digit_not_prefix_letter)
  from assms(1) t nd have "string_to_number s =
      (case s of
         c # u \<Rightarrow>
           if c = CHR ''+'' then unsigned_decimal u
           else if c = CHR ''-'' then map_option uminus (unsigned_decimal u)
           else unsigned_decimal s
       | [] \<Rightarrow> None)"
    by (simp add: string_to_number_def Let_def)
  also from assms(1) sign have "\<dots> = unsigned_decimal s"
    by (cases s) simp_all
  finally show ?thesis using assms by (simp add: unsigned_decimal_digits)
qed

lemma string_to_number_minus_digits:
  assumes "s \<noteq> []" and "list_all is_digit s"
  shows "string_to_number (CHR ''-'' # s) = Some (- int (digits_value s))"
proof -
  from assms have "is_digit (last s)" by (simp add: list_all_iff)
  with assms(1) have "\<not> is_ws (last (CHR ''-'' # s))" by (simp add: digit_not_ws)
  moreover have "\<not> is_ws (hd (CHR ''-'' # s))" by (simp add: is_ws_def)
  ultimately have t: "trim (CHR ''-'' # s) = CHR ''-'' # s" by (simp add: trim_id)
  have nd: "non_decimal (CHR ''-'' # s) = None"
    by (simp add: non_decimal_def split: list.splits)
  have "string_to_number (CHR ''-'' # s) = map_option uminus (unsigned_decimal s)"
    unfolding string_to_number_def Let_def t nd by simp
  with assms show ?thesis by (simp add: unsigned_decimal_digits)
qed

lemma string_to_number_number_to_string:
  "string_to_number (number_to_string n) = Some n"
proof (cases "n < 0")
  case True
  have "string_to_number (CHR ''-'' # digits_of (nat (- n))) =
      Some (- int (digits_value (digits_of (nat (- n)))))"
    by (rule string_to_number_minus_digits [OF digits_of_nonempty digits_of_digits])
  with True show ?thesis by (simp add: number_to_string_def digits_value_digits_of)
next
  case False
  have "string_to_number (digits_of (nat n)) = Some (int (digits_value (digits_of (nat n))))"
    by (rule string_to_number_digits [OF digits_of_nonempty digits_of_digits])
  with False show ?thesis by (simp add: number_to_string_def digits_value_digits_of)
qed

subsection \<open>Looking up by id\<close>

lemma numeric_idE:
  assumes "numeric_id x"
  obtains ps n where "x = JObj ps" and "get_prop ps ''id'' = Some (JNum n)"
proof (cases x)
  case (JObj ps)
  with assms obtain v where v: "get_prop ps ''id'' = Some v"
    by (cases "get_prop ps ''id''") (simp_all add: numeric_id_def)
  with assms JObj obtain n where "v = JNum n"
    by (cases v) (simp_all add: numeric_id_def)
  with v JObj that show ?thesis by simp
qed (use assms in \<open>simp_all add: numeric_id_def\<close>)

lemma id_matches_string:
  "get_prop r ''id'' = Some (JNum n) \<Longrightarrow>
   id_matches (Val (JStr s)) (JObj r) = Inr (string_to_number s = Some n)"
  by (simp add: id_matches_def get_id_def loose_eq_def)

lemma same_match:
  assumes "numeric_id x"
  shows "id_matches (Val (JStr (number_to_string n))) x = id_matches (Val (JNum n)) x"
proof -
  from assms obtain ps m where "x = JObj ps" "get_prop ps ''id'' = Some (JNum m)"
    by (rule numeric_idE)
  then show ?thesis
    by (auto simp: id_matches_string id_matches_number string_to_number_number_to_string)
qed

lemma array_find_cong:
  "\<forall>x\<in>set xs. p x = q x \<Longrightarrow> array_find p xs = array_find q xs"
  by (induction xs) (simp_all split: sum.splits)

lemma array_find_numeric:
  assumes "list_all numeric_id ys"
    and "\<exists>y\<in>set ys. id_matches (Val (JNum n)) y = Inr True"
  shows "\<exists>r. array_find (id_matches (Val (JNum n))) ys = Inr (Some (JObj r)) \<and>
             get_prop r ''id'' = Some (JNum n)"
  using assms
proof (induction ys)
  case Nil
  then show ?case by simp
next
  case (Cons y ys)
  from Cons.prems(1) have "numeric_id y" by simp
  then obtain ps m where y: "y = JObj ps" "get_prop ps ''id'' = Some (JNum m)"
    by (rule numeric_idE)
  then have my: "id_matches (Val (JNum n)) y = Inr (m = n)"
    by (simp add: id_matches_number)
  show ?case
  proof (cases "m = n")
    case True
    with y my show ?thesis by simp
  next
    case False
    with my Cons.prems have "list_all numeric_id ys"
      "\<exists>y\<in>set ys. id_matches (Val (JNum n)) y = Inr True"
      by simp_all
    from Cons.IH [OF this] my False show ?thesis by simp
  qed
qed

lemma loose_eq_number_string:
  "loose_eq (Val (JNum n)) (Val (JStr (number_to_string n))) = Inr True"
  "loose_eq (Val (JStr (number_to_string n))) (Val (JNum n)) = Inr True"
  by (simp_all add: loose_eq_def string_to_number_number_to_string)

text \<open>
  C5. On a table whose records carry numbers as ids and whose file, when it exists,
  can be read, after \<open>insert\<close> has stored a record with the clock value \<open>n\<close> as id, \<open>findById\<close> returns the same record for
  the number \<open>n\<close> and for the string that prints \<open>n\<close>, and that record has the id
  \<open>n\<close>. The record \<open>insert\<close> returns matches both the number and the string. A
  number and the string that prints it are loosely equal, whichever side each is on.
\<close>

theorem db_findById_loose:
  assumes "db_read t d = JArr xs" and "list_all numeric_id xs" and "\<not> unreadable d t"
  shows "db_findById t (Val (JStr (number_to_string n))) (snd (db_insert t record n stamp d)) =
           db_findById t (Val (JNum n)) (snd (db_insert t record n stamp d)) \<and>
         (\<exists>r. db_findById t (Val (JNum n)) (snd (db_insert t record n stamp d)) =
                 Inr (Some (JObj r)) \<and>
               get_prop r ''id'' = Some (JNum n)) \<and>
         (\<exists>r. fst (db_insert t record n stamp d) = Inr (JObj r) \<and>
               id_matches (Val (JNum n)) (JObj r) = Inr True \<and>
               id_matches (Val (JStr (number_to_string n))) (JObj r) = Inr True) \<and>
         loose_eq (Val (JNum n)) (Val (JStr (number_to_string n))) = Inr True \<and>
         loose_eq (Val (JStr (number_to_string n))) (Val (JNum n)) = Inr True"
proof -
  let ?new = "JObj (stamp_record record n stamp)"
  let ?d = "snd (db_insert t record n stamp d)"
  from assms(1,3) have rd: "db_read t ?d = JArr (xs @ [?new])"
    by (simp add: db_insert_array db_read_db_write)
  have new: "numeric_id ?new"
    by (simp add: numeric_id_def stamp_record_props)
  with assms(2) have all: "list_all numeric_id (xs @ [?new])" by simp
  then have "\<forall>x\<in>set (xs @ [?new]).
      id_matches (Val (JStr (number_to_string n))) x = id_matches (Val (JNum n)) x"
    by (simp add: same_match list_all_iff)
  then have "array_find (id_matches (Val (JStr (number_to_string n)))) (xs @ [?new]) =
      array_find (id_matches (Val (JNum n))) (xs @ [?new])"
    by (rule array_find_cong)
  with rd have same: "db_findById t (Val (JStr (number_to_string n))) ?d =
      db_findById t (Val (JNum n)) ?d"
    by (simp add: db_findById_def)
  have mn: "id_matches (Val (JNum n)) ?new = Inr True"
    by (simp add: id_matches_number stamp_record_props)
  then have "\<exists>y\<in>set (xs @ [?new]). id_matches (Val (JNum n)) y = Inr True" by simp
  from array_find_numeric [OF all this] rd
  have found: "\<exists>r. db_findById t (Val (JNum n)) ?d = Inr (Some (JObj r)) \<and>
      get_prop r ''id'' = Some (JNum n)"
    by (simp add: db_findById_def)
  from new mn have ms: "id_matches (Val (JStr (number_to_string n))) ?new = Inr True"
    by (simp add: same_match)
  from assms(1) have "fst (db_insert t record n stamp d) = Inr ?new"
    by (simp add: db_insert_array)
  with mn ms have inserted: "\<exists>r. fst (db_insert t record n stamp d) = Inr (JObj r) \<and>
      id_matches (Val (JNum n)) (JObj r) = Inr True \<and>
      id_matches (Val (JStr (number_to_string n))) (JObj r) = Inr True"
    by simp
  from same found inserted show ?thesis by (simp add: loose_eq_number_string)
qed

text \<open>The id 42 and the string \<open>"42"\<close> on the sample products.\<close>

theorem db_findById_loose_witness:
  "db_read products sample_disk = JArr sample_products \<and>
   list_all numeric_id sample_products \<and>
   \<not> unreadable sample_disk products \<and>
   db_findById products (Val (JStr ''42''))
     (snd (db_insert products [(''name'', JStr ''C'')] 42 ''2024'' sample_disk)) =
   db_findById products (Val (JNum 42))
     (snd (db_insert products [(''name'', JStr ''C'')] 42 ''2024'' sample_disk)) \<and>
   db_findById products (Val (JNum 42))
     (snd (db_insert products [(''name'', JStr ''C'')] 42 ''2024'' sample_disk)) =
   Inr (Some (JObj [(''name'', JStr ''C''), (''id'', JNum 42), (''created_at'', JStr ''2024'')])) \<and>
   loose_eq (Val (JNum 42)) (Val (JStr ''42'')) = Inr True"
proof -
  have h: "db_read products sample_disk = JArr sample_products" by code_simp
  have a: "list_all numeric_id sample_products" by code_simp
  have s: "number_to_string 42 = ''42''" by code_simp
  have f: "db_findById products (Val (JNum 42))
     (snd (db_insert products [(''name'', JStr ''C'')] 42 ''2024'' sample_disk)) =
   Inr (Some (JObj [(''name'', JStr ''C''), (''id'', JNum 42), (''created_at'', JStr ''2024'')]))"
    by code_simp
  have u: "\<not> unreadable sample_disk products" by code_simp
  from db_findById_loose [OF h a u, of 42 "[(''name'', JStr ''C'')]" "''2024''"] h a u f
  show ?thesis by (simp add: s)
qed

subsection \<open>Initialisation and the shape of the files\<close>

lemma init_file_at:
  "init_file d q p = (if p = q \<and> d q = None then Some (JsonText (JArr [])) else d p)"
  by (simp add: init_file_def existsSync_def writeJsonSync_def)

lemma init_files:
  "foldl init_file d ps p =
     (if p \<in> set ps \<and> d p = None then Some (JsonText (JArr [])) else d p)"
proof (induction ps arbitrary: d)
  case Nil
  show ?case by simp
next
  case (Cons q ps)
  have "foldl init_file d (q # ps) p = foldl init_file (init_file d q) ps p"
    by simp
  also have "\<dots> =
      (if p \<in> set ps \<and> init_file d q p = None then Some (JsonText (JArr []))
       else init_file d q p)"
    by (rule Cons.IH)
  also have "\<dots> =
      (if p \<in> set (q # ps) \<and> d p = None then Some (JsonText (JArr [])) else d p)"
    by (auto simp: init_file_at)
  finally show ?case .
qed

lemma dbFiles_known: "dbFiles t \<in> set (map dbFiles all_tables)"
  by (cases t) (simp_all add: all_tables_def)

lemma init_db_at:
  "init_db d p =
     (if p \<in> set (map dbFiles all_tables) \<and> d p = None then Some (JsonText (JArr [])) else d p)"
  unfolding init_db_def by (rule init_files)

lemma init_db_table:
  "init_db d (dbFiles t) =
     (case d (dbFiles t) of None \<Rightarrow> Some (JsonText (JArr [])) | Some c \<Rightarrow> Some c)"
  using dbFiles_known [of t] by (simp add: init_db_at split: option.splits)

lemma init_db_twice: "init_db (init_db d) = init_db d"
proof
  fix p
  show "init_db (init_db d) p = init_db d p"
    by (simp add: init_db_at [of "init_db d"]) (simp add: init_db_at)
qed

lemma holds_array_db_write_same: "holds_array (db_write t (JArr ys) d) t"
  by (simp add: holds_array_def db_write_def writeJsonSync_def
      split: option.splits file_content.splits)

lemma holds_array_db_write:
  assumes "holds_array d t'"
  shows "holds_array (db_write t (JArr ys) d) t'"
proof (cases "dbFiles t' = dbFiles t")
  case True
  have "holds_array (db_write t (JArr ys) d) t"
    by (rule holds_array_db_write_same)
  with True show ?thesis by (simp add: holds_array_def)
next
  case False
  with assms show ?thesis
    by (simp add: holds_array_def db_write_def writeJsonSync_def)
qed

lemma db_insert_writes:
  "snd (db_insert t record now stamp d) = d \<or>
   (\<exists>ys. snd (db_insert t record now stamp d) = db_write t (JArr ys) d)"
  by (cases "db_read t d") (auto simp: db_insert_def Let_def)

lemma db_update_writes:
  "snd (db_update t i updates stamp d) = d \<or>
   (\<exists>ys. snd (db_update t i updates stamp d) = db_write t (JArr ys) d)"
  by (cases "db_read t d")
    (auto simp: db_update_def Let_def split: sum.splits option.splits)

lemma db_delete_writes:
  "snd (db_delete t i d) = d \<or> (\<exists>ys. snd (db_delete t i d) = db_write t (JArr ys) d)"
  by (cases "db_read t d")
    (auto simp: db_delete_def split: sum.splits option.splits)

lemma init_db_holds:
  "missing d t \<or> holds_array d t \<Longrightarrow> holds_array (init_db d) t"
  by (auto simp: missing_def holds_array_def init_db_table split: option.splits)

lemma all_tables_all: "list_all P all_tables = (\<forall>t. P t)"
proof
  assume a: "list_all P all_tables"
  show "\<forall>t. P t"
  proof
    fix t
    from a show "P t" by (cases t) (simp_all add: all_tables_def)
  qed
next
  assume "\<forall>t. P t"
  then show "list_all P all_tables" by (simp add: all_tables_def)
qed

text \<open>
  C8. Initialising twice is initialising once. A table file that exists, whatever it
  holds, is the same after one and after two initialisations; a table file that does
  not exist is created with the empty array; no other file is touched.
\<close>

theorem init_db_idempotent:
  "init_db (init_db d) = init_db d \<and>
   (\<forall>t c. d (dbFiles t) = Some c \<longrightarrow>
      init_db d (dbFiles t) = Some c \<and> init_db (init_db d) (dbFiles t) = Some c) \<and>
   (\<forall>t. d (dbFiles t) = None \<longrightarrow> init_db d (dbFiles t) = Some (JsonText (JArr []))) \<and>
   (\<forall>p. p \<notin> set (map dbFiles all_tables) \<longrightarrow> init_db d p = d p)"
  by (simp add: init_db_twice init_db_table) (simp add: init_db_at)

text \<open>
  The populated file of \<open>products\<close> survives; the file of \<open>bookings\<close> is created.
\<close>

theorem init_db_idempotent_witness:
  "sample_disk (dbFiles products) = Some (JsonText (JArr sample_products)) \<and>
   init_db sample_disk (dbFiles products) = Some (JsonText (JArr sample_products)) \<and>
   init_db (init_db sample_disk) (dbFiles products) = Some (JsonText (JArr sample_products)) \<and>
   sample_disk (dbFiles bookings) = None \<and>
   init_db sample_disk (dbFiles bookings) = Some (JsonText (JArr [])) \<and>
   init_db (init_db sample_disk) = init_db sample_disk"
proof -
  have p: "sample_disk (dbFiles products) = Some (JsonText (JArr sample_products))"
    by (simp add: sample_disk_def)
  have b: "sample_disk (dbFiles bookings) = None"
    by (simp add: sample_disk_def)
  from init_db_idempotent [of sample_disk]
  have i: "init_db (init_db sample_disk) = init_db sample_disk"
    and e: "\<And>t c. sample_disk (dbFiles t) = Some c \<Longrightarrow>
      init_db sample_disk (dbFiles t) = Some c \<and>
      init_db (init_db sample_disk) (dbFiles t) = Some c"
    and m: "\<And>t. sample_disk (dbFiles t) = None \<Longrightarrow>
      init_db sample_disk (dbFiles t) = Some (JsonText (JArr []))"
    by blast+
  from p b i e [OF p] m [OF b] show ?thesis by blast
qed

text \<open>
  C9. When every table file that exists before initialisation holds an array, every
  table file holds an array after it. When every table file holds an array, this is so
  again after \<open>insert\<close>, \<open>update\<close>, \<open>delete\<close> and after \<open>write\<close> with an
  array. Whatever the disk, each of \<open>insert\<close>, \<open>update\<close> and \<open>delete\<close> either
  leaves it alone or leaves an array in the file of its table, and \<open>write\<close> with an
  array leaves that array there.
\<close>

theorem tables_stay_arrays:
  "(list_all (\<lambda>t. missing d t \<or> holds_array d t) all_tables \<longrightarrow>
      list_all (holds_array (init_db d)) all_tables) \<and>
   (list_all (holds_array d) all_tables \<longrightarrow>
      list_all (holds_array (snd (db_insert t record now stamp d))) all_tables \<and>
      list_all (holds_array (snd (db_update t i updates stamp d))) all_tables \<and>
      list_all (holds_array (snd (db_delete t i d))) all_tables \<and>
      list_all (holds_array (db_write t (JArr xs) d)) all_tables) \<and>
   (snd (db_insert t record now stamp d) = d \<or>
      holds_array (snd (db_insert t record now stamp d)) t) \<and>
   (snd (db_update t i updates stamp d) = d \<or>
      holds_array (snd (db_update t i updates stamp d)) t) \<and>
   (snd (db_delete t i d) = d \<or> holds_array (snd (db_delete t i d)) t) \<and>
   holds_array (db_write t (JArr xs) d) t"
proof (intro conjI impI)
  assume "list_all (\<lambda>t. missing d t \<or> holds_array d t) all_tables"
  then show "list_all (holds_array (init_db d)) all_tables"
    by (simp add: all_tables_all init_db_holds)
next
  assume a: "list_all (holds_array d) all_tables"
  then have h: "\<And>t'. holds_array d t'" by (simp add: all_tables_all)
  from db_insert_writes [of t "record" now stamp d] h
  show "list_all (holds_array (snd (db_insert t record now stamp d))) all_tables"
    by (auto simp: all_tables_all holds_array_db_write)
  from db_update_writes [of t i updates stamp d] h
  show "list_all (holds_array (snd (db_update t i updates stamp d))) all_tables"
    by (auto simp: all_tables_all holds_array_db_write)
  from db_delete_writes [of t i d] h
  show "list_all (holds_array (snd (db_delete t i d))) all_tables"
    by (auto simp: all_tables_all holds_array_db_write)
  from h show "list_all (holds_array (db_write t (JArr xs) d)) all_tables"
    by (simp add: all_tables_all holds_array_db_write)
next
  from db_insert_writes [of t "record" now stamp d]
  show "snd (db_insert t record now stamp d) = d \<or>
      holds_array (snd (db_insert t record now stamp d)) t"
    by (auto simp: holds_array_db_write_same)
next
  from db_update_writes [of t i updates stamp d]
  show "snd (db_update t i updates stamp d) = d \<or>
      holds_array (snd (db_update t i updates stamp d)) t"
    by (auto simp: holds_array_db_write_same)
next
  from db_delete_writes [of t i d]
  show "snd (db_delete t i d) = d \<or> holds_array (snd (db_delete t i d)) t"
    by (auto simp: holds_array_db_write_same)
next
  show "holds_array (db_write t (JArr xs) d) t" by (rule holds_array_db_write_same)
qed

text \<open>
  From the sample disk, where only the file of \<open>products\<close> exists, through
  initialisation and one call of each operation.
\<close>

theorem tables_stay_arrays_witness:
  "list_all (\<lambda>t. missing sample_disk t \<or> holds_array sample_disk t) all_tables \<and>
   list_all (holds_array (init_db sample_disk)) all_tables \<and>
   list_all (holds_array
     (snd (db_insert bookings [(''name'', JStr ''C'')] 42 ''2024'' (init_db sample_disk)))) all_tables \<and>
   list_all (holds_array
     (snd (db_update products (Val (JNum 1)) [(''price'', JNum 20)] ''2024'' (init_db sample_disk))))
     all_tables \<and>
   list_all (holds_array (snd (db_delete products (Val (JNum 2)) (init_db sample_disk)))) all_tables \<and>
   list_all (holds_array (db_write bookings (JArr []) (init_db sample_disk))) all_tables"
proof -
  have h0: "list_all (\<lambda>t. missing sample_disk t \<or> holds_array sample_disk t) all_tables"
    by code_simp
  from tables_stay_arrays [of sample_disk] h0
  have h1: "list_all (holds_array (init_db sample_disk)) all_tables"
    by blast
  from tables_stay_arrays
    [of "init_db sample_disk" bookings "[(''name'', JStr ''C'')]" 42 "''2024''"] h1
  have i: "list_all (holds_array
     (snd (db_insert bookings [(''name'', JStr ''C'')] 42 ''2024'' (init_db sample_disk)))) all_tables"
    by blast
  from tables_stay_arrays
    [of "init_db sample_disk" products _ _ "''2024''" "Val (JNum 1)" "[(''price'', JNum 20)]"] h1
  have u: "list_all (holds_array
     (snd (db_update products (Val (JNum 1)) [(''price'', JNum 20)] ''2024'' (init_db sample_disk))))
     all_tables"
    by blast
  from tables_stay_arrays [of "init_db sample_disk" products _ _ _ "Val (JNum 2)"] h1
  have d: "list_all (holds_array (snd (db_delete products (Val (JNum 2)) (init_db sample_disk))))
     all_tables"
    by blast
  from tables_stay_arrays [of "init_db sample_disk" bookings _ _ _ _ _ "[]"] h1
  have w: "list_all (holds_array (db_write bookings (JArr []) (init_db sample_disk))) all_tables"
    by blast
  from h0 h1 i u d w show ?thesis by blast
qed

end
